theory Spec2Isabelle
  imports Complex_Main
begin

section \<open>The ingestion script \<open>app/backend/prepdocs.py\<close>\<close>

text \<open>
  The script parses its command line into an argument namespace, builds a
  \<open>FileStrategy\<close> from it (\<open>setup_file_strategy\<close>) and drives one run of that
  strategy (\<open>main\<close>).  The embedding below follows the script statement by
  statement.  Objects of the library and of \<open>prepdocslib\<close> that the script only
  constructs are values of datatypes whose constructor carries the keyword
  arguments in the order of the call; constructing one has no effect.
\<close>

subsection \<open>The argument namespace\<close>

text \<open>
  One field per \<open>add_argument\<close> call.  Arguments whose default is read from the
  environment, or that have no default, may be \<open>None\<close>; \<open>formrecognizerservice\<close>
  is tested against \<open>None\<close> by the script and is optional for that reason.
\<close>

record Args =
  files :: "string option"
  useacls :: bool
  storageaccount :: string
  category :: "string option"
  container :: string
  storagekey :: "string option"
  tenantid :: "string option"
  searchservice :: "string option"
  index :: "string option"
  searchkey :: "string option"
  searchanalyzername :: string
  openaihost :: string
  openaiservice :: string
  openaideployment :: string
  openaimodelname :: string
  novectors :: bool
  disablebatchvectors :: bool
  remove :: bool
  removeall :: bool
  formrecognizerservice :: "string option"
  formrecognizerkey :: "string option"
  verbose :: bool

text \<open>How an f-string renders an optional string: \<open>None\<close> is printed as the word.\<close>

definition format_opt :: "string option \<Rightarrow> string" where
  "format_opt v = (case v of None \<Rightarrow> ''None'' | Some s \<Rightarrow> s)"

subsection \<open>Objects the script constructs\<close>

datatype AzureKeyCredential = AzureKeyCredential "string option"

text \<open>\<open>BlobManager(endpoint, container, credential, verbose)\<close>\<close>

datatype BlobManager = BlobManager string string "string option" bool

text \<open>\<open>DocumentAnalysisPdfParser(endpoint, credential, verbose)\<close>\<close>

datatype PdfParser = DocumentAnalysisPdfParser string AzureKeyCredential bool

text \<open>
  \<open>AzureOpenAIEmbeddingService(open_ai_service, open_ai_deployment,
  open_ai_model_name, credential, disable_batch, verbose)\<close>
\<close>

datatype OpenAIEmbeddings =
  AzureOpenAIEmbeddingService string string string AzureKeyCredential bool bool

text \<open>\<open>LocalListFileStrategy(path_pattern, verbose)\<close>\<close>

datatype ListFileStrategy = LocalListFileStrategy "string option" bool

datatype TextSplitter = TextSplitter

datatype DocumentAction = Add | Remove | RemoveAll

record FileStrategy =
  list_file_strategy :: ListFileStrategy
  blob_manager :: BlobManager
  pdf_parser :: PdfParser
  text_splitter :: TextSplitter
  document_action :: DocumentAction
  embeddings :: "OpenAIEmbeddings option"
  search_analyzer_name :: string
  use_acls :: bool
  fs_category :: "string option"

text \<open>\<open>SearchInfo(endpoint, credential, index_name, verbose)\<close>\<close>

datatype SearchInfo = SearchInfo string AzureKeyCredential "string option" bool

subsection \<open>Exceptions and standard output\<close>

text \<open>
  \<open>exit(1)\<close> raises \<open>SystemExit\<close>, which nothing in the script catches.
  \<open>Raised\<close> stands for an exception coming out of a strategy method.
\<close>

datatype exn = SystemExit nat | Raised string

text \<open>What the script prints: lines of text, and once the namespace itself.\<close>

datatype printed = Line string | Namespace Args

subsection \<open>\<open>setup_file_strategy\<close>\<close>

text \<open>
  The function reads one environment variable, \<open>OPENAI_API_KEY\<close>; the
  environment is the parameter \<open>getenv\<close>.  The result is what was printed,
  and either the exception that ended the function or the strategy returned.
\<close>

definition setup_file_strategy ::
  "(string \<Rightarrow> string option) \<Rightarrow> Args \<Rightarrow> printed list \<times> (exn + FileStrategy)" where
  "setup_file_strategy getenv args =
    (let storage_creds = storagekey args;
         blob_manager = BlobManager
           (''https://'' @ storageaccount args @ ''.blob.core.windows.net'')
           (container args) storage_creds (verbose args)
     in
     if formrecognizerservice args = None then
       ([Line ''Error: Azure Form Recognizer service is not provided. Please provide formrecognizerservice''],
        Inl (SystemExit 1))
     else
      (let formrecognizer_creds = AzureKeyCredential (formrecognizerkey args);
           pdf_parser = DocumentAnalysisPdfParser
             (''https://'' @ format_opt (formrecognizerservice args) @ ''.cognitiveservices.azure.com/'')
             formrecognizer_creds (verbose args);
           use_vectors = (\<not> novectors args);
           embeddings =
             (if use_vectors \<and> openaihost args \<noteq> ''openai'' then
                (let azure_open_ai_credential = AzureKeyCredential (getenv ''OPENAI_API_KEY'')
                 in Some (AzureOpenAIEmbeddingService
                      (openaiservice args) (openaideployment args) (openaimodelname args)
                      azure_open_ai_credential (disablebatchvectors args) (verbose args)))
              else None);
           list_file_strategy = LocalListFileStrategy (files args) (verbose args);
           document_action =
             (if removeall args then RemoveAll
              else if remove args then Remove
              else Add)
       in
       ([Line ''Processing files...'',
         Line (''Using local files in '' @ format_opt (files args))],
        Inr \<lparr> list_file_strategy = list_file_strategy,
              blob_manager = blob_manager,
              pdf_parser = pdf_parser,
              text_splitter = TextSplitter,
              document_action = document_action,
              embeddings = embeddings,
              search_analyzer_name = searchanalyzername args,
              use_acls = useacls args,
              fs_category = category args \<rparr>)))"

subsection \<open>\<open>main\<close>\<close>

text \<open>
  A strategy has two methods, \<open>setup\<close> and \<open>run\<close>, each taking the search
  information.  A method acts on the outside world (blob store, search index,
  remote services), of type \<open>'w\<close>, and either returns or raises.
\<close>

record 'w Strategy =
  strategy_setup :: "SearchInfo \<Rightarrow> 'w \<Rightarrow> 'w \<times> exn option"
  strategy_run :: "SearchInfo \<Rightarrow> 'w \<Rightarrow> 'w \<times> exn option"

text \<open>
  \<open>main\<close> is traced: a method call is logged when it begins and when it
  returns.  A call that raises leaves no return event and ends \<open>main\<close>, as
  the awaited coroutine's exception propagates.
\<close>

datatype event =
  Setup_begins SearchInfo | Setup_returns | Run_begins SearchInfo | Run_returns

definition call_run ::
  "'w Strategy \<Rightarrow> SearchInfo \<Rightarrow> event list \<Rightarrow> 'w \<Rightarrow> event list \<times> 'w \<times> exn option" where
  "call_run strategy search_info tr w =
    (case strategy_run strategy search_info w of
       (w', Some e) \<Rightarrow> (tr @ [Run_begins search_info], w', Some e)
     | (w', None) \<Rightarrow> (tr @ [Run_begins search_info, Run_returns], w', None))"

definition main ::
  "'w Strategy \<Rightarrow> Args \<Rightarrow> 'w \<Rightarrow> event list \<times> 'w \<times> exn option" where
  "main strategy args w =
    (let search_creds = AzureKeyCredential (searchkey args);
         search_info = SearchInfo
           (''https://'' @ format_opt (searchservice args) @ ''.search.windows.net/'')
           search_creds (index args) (verbose args)
     in
     if \<not> remove args \<and> \<not> removeall args then
       (case strategy_setup strategy search_info w of
          (w', Some e) \<Rightarrow> ([Setup_begins search_info], w', Some e)
        | (w', None) \<Rightarrow>
            call_run strategy search_info [Setup_begins search_info, Setup_returns] w')
     else call_run strategy search_info [] w)"

subsection \<open>The script body\<close>

text \<open>
  The block under \<open>__main__\<close>, after the command line is parsed: print the
  namespace, build the strategy, run \<open>main\<close> to completion.  How a
  \<open>FileStrategy\<close> object behaves as a strategy is the parameter \<open>methods\<close>.
\<close>

definition prepdocs ::
  "(FileStrategy \<Rightarrow> 'w Strategy) \<Rightarrow> (string \<Rightarrow> string option) \<Rightarrow> Args \<Rightarrow> 'w
     \<Rightarrow> printed list \<times> event list \<times> 'w \<times> exn option" where
  "prepdocs methods getenv args w =
    (case setup_file_strategy getenv args of
       (out, Inl e) \<Rightarrow> (Namespace args # out, [], w, Some e)
     | (out, Inr file_strategy) \<Rightarrow>
         (case main (methods file_strategy) args w of
            (tr, w', r) \<Rightarrow> (Namespace args # out, tr, w', r)))"

text \<open>The search information that \<open>main\<close> builds, for use in statements.\<close>

definition search_info_of :: "Args \<Rightarrow> SearchInfo" where
  "search_info_of args =
     SearchInfo (''https://'' @ format_opt (searchservice args) @ ''.search.windows.net/'')
       (AzureKeyCredential (searchkey args)) (index args) (verbose args)"

section \<open>The run of a file strategy\<close>

text \<open>
  The package \<open>prepdocslib\<close> (\<open>FileStrategy\<close>, \<open>BlobManager\<close>, the parser,
  the splitter, the lister and the embedding service) is not among the
  sources; the script only imports it.  What a run does is therefore taken
  from the specification, sections 3, 4 and 7.  The collaborators outside the
  orchestrator are parameters; the artifact store and the index are finite
  maps, and their operations are taken to succeed.
\<close>

subsection \<open>Data\<close>

type_synonym bytes = string

type_synonym vector = "real list"

text \<open>
  Modelled from the spec: the SourceDocument of section 3 (the file objects of
  \<open>prepdocslib\<close> are missing): identity, bytes, optional per-page renderings.
\<close>

record SourceDocument =
  identity :: string
  content :: bytes
  renderings :: "bytes list option"

text \<open>
  Modelled from the spec: the ParsedPage of section 3: ordinal, extracted text,
  optional layout metadata.
\<close>

record ParsedPage =
  page_ordinal :: nat
  page_text :: string
  layout :: "string option"

text \<open>
  Modelled from the spec: the Section of section 3: owning document, ordinal
  within the document, text, optional category tag, optional embedding.  The
  specification does not say where access-control metadata come from; they
  are left out.
\<close>

record Section =
  owner :: string
  ordinal :: nat
  section_text :: string
  section_category :: "string option"
  section_embedding :: "vector option"

text \<open>
  Modelled from the spec: the SearchIndexEntry of section 3, keyed by an id
  derived from document identity and section ordinal: the pair of the two.
\<close>

record SearchIndexEntry =
  entry_id :: "string \<times> nat"
  entry_content :: string
  entry_embedding :: "vector option"
  entry_category :: "string option"
  sourceref :: string

text \<open>
  Modelled from the spec: the contracts of sections 4.2 to 4.5, as the
  behaviour of the objects the strategy holds: \<open>list\<close> of the Source Lister,
  \<open>parse\<close> of the Content Parser (\<open>None\<close> is a parse error), \<open>split\<close> of the
  Text Splitter (the texts of the sections, in order), and \<open>supportsBatch\<close>,
  \<open>computeOne\<close>, \<open>computeBatch\<close> of the Embedding Provider (\<open>None\<close> is a
  provider failure).
\<close>

record Services =
  lister_list :: "ListFileStrategy \<Rightarrow> SourceDocument list"
  parser_parse :: "PdfParser \<Rightarrow> bytes \<Rightarrow> ParsedPage list option"
  splitter_split :: "TextSplitter \<Rightarrow> ParsedPage list \<Rightarrow> string list"
  supportsBatch :: "OpenAIEmbeddings \<Rightarrow> bool"
  computeOne :: "OpenAIEmbeddings \<Rightarrow> string \<Rightarrow> vector option"
  computeBatch :: "OpenAIEmbeddings \<Rightarrow> string list \<Rightarrow> vector list option"

text \<open>
  Modelled from the spec: the persisted state of sections 4.6 and 4.7: the
  Artifact Store, keyed by document identity (original bytes, and page
  renderings), and the index, keyed by entry id.
\<close>

record World =
  artifacts :: "string \<rightharpoonup> bytes"
  page_artifacts :: "string \<rightharpoonup> bytes list"
  entries :: "string \<times> nat \<rightharpoonup> SearchIndexEntry"

text \<open>
  Modelled from the spec: the calls a run makes to its collaborators
  (section 6, collaborator contracts consumed).
\<close>

datatype call =
    Parse string
  | ComputeOne string
  | ComputeBatch "string list"
  | Upload string
  | UploadPageRenderings string "bytes list"
  | Upsert "SearchIndexEntry list"
  | DeleteForSource string
  | DeleteBySource string
  | DeleteAllArtifacts
  | DeleteAllEntries

text \<open>
  Modelled from the spec: the per-document errors of section 7 that the
  collaborators above can produce, with the identity of the document.
\<close>

datatype doc_error = ParseError string | EmbeddingError string

subsection \<open>Artifact Store and Index Client\<close>

text \<open>Modelled from the spec: \<open>upload(document)\<close> of section 4.6.\<close>

definition store_upload :: "SourceDocument \<Rightarrow> World \<Rightarrow> World" where
  "store_upload d w = w\<lparr>artifacts := (artifacts w)(identity d \<mapsto> content d)\<rparr>"

text \<open>Modelled from the spec: \<open>uploadPageRenderings(document, pages)\<close> of section 4.6.\<close>

definition store_uploadPageRenderings :: "SourceDocument \<Rightarrow> bytes list \<Rightarrow> World \<Rightarrow> World" where
  "store_uploadPageRenderings d pages w =
     w\<lparr>page_artifacts := (page_artifacts w)(identity d \<mapsto> pages)\<rparr>"

text \<open>
  Modelled from the spec: \<open>deleteForSource(path)\<close> of section 4.6, exact match
  on the identity.
\<close>

definition store_deleteForSource :: "string \<Rightarrow> World \<Rightarrow> World" where
  "store_deleteForSource path w =
     w\<lparr>artifacts := (artifacts w)(path := None),
       page_artifacts := (page_artifacts w)(path := None)\<rparr>"

text \<open>Modelled from the spec: \<open>deleteAll()\<close> of section 4.6, unconditional.\<close>

definition store_deleteAll :: "World \<Rightarrow> World" where
  "store_deleteAll w = w\<lparr>artifacts := Map.empty, page_artifacts := Map.empty\<rparr>"

text \<open>
  Modelled from the spec: one record put into the index (section 4.7): it is
  keyed by its id and replaces the record that had this id.
\<close>

definition put_entry ::
  "(string \<times> nat \<rightharpoonup> SearchIndexEntry) \<Rightarrow> SearchIndexEntry
     \<Rightarrow> (string \<times> nat \<rightharpoonup> SearchIndexEntry)" where
  "put_entry m e = m(entry_id e \<mapsto> e)"

text \<open>
  Modelled from the spec: \<open>upsert(entries)\<close> of section 4.7: the records are
  put one after the other, so a later one with the same id wins.
\<close>

definition index_upsert :: "SearchIndexEntry list \<Rightarrow> World \<Rightarrow> World" where
  "index_upsert es w = w\<lparr>entries := foldl put_entry (entries w) es\<rparr>"

text \<open>
  Modelled from the spec: \<open>deleteBySource(path)\<close> of section 4.7: every entry
  whose source reference equals the path goes, no other.
\<close>

definition index_deleteBySource :: "string \<Rightarrow> World \<Rightarrow> World" where
  "index_deleteBySource path w =
     w\<lparr>entries := (\<lambda>k. case entries w k of
                          None \<Rightarrow> None
                        | Some e \<Rightarrow> if sourceref e = path then None else Some e)\<rparr>"

text \<open>Modelled from the spec: \<open>deleteAll()\<close> of section 4.7.\<close>

definition index_deleteAll :: "World \<Rightarrow> World" where
  "index_deleteAll w = w\<lparr>entries := Map.empty\<rparr>"

subsection \<open>Embedding policy\<close>

text \<open>The \<open>disable_batch\<close> argument the script gives the embedding service.\<close>

fun disable_batch :: "OpenAIEmbeddings \<Rightarrow> bool" where
  "disable_batch (AzureOpenAIEmbeddingService service deployment model_name credential db v) = db"

text \<open>
  Modelled from the spec: section 4.1, embedding one section at a time; the
  first provider failure ends the document.
\<close>

fun compute_each ::
  "Services \<Rightarrow> OpenAIEmbeddings \<Rightarrow> string list \<Rightarrow> call list \<times> vector list option" where
  "compute_each svc e [] = ([], Some [])"
| "compute_each svc e (t # ts) =
     (case computeOne svc e t of
        None \<Rightarrow> ([ComputeOne t], None)
      | Some v \<Rightarrow>
          (case compute_each svc e ts of
             (cs, r) \<Rightarrow> (ComputeOne t # cs, map_option ((#) v) r)))"

text \<open>
  Modelled from the spec: the embedding batching policy of section 4.1: all
  sections of a document in one batch when the provider supports batching
  and batching is not disabled, one at a time otherwise.  A batch answer must
  have one vector per text (section 4.5); any other answer counts as a
  provider failure.
\<close>

definition compute_vectors ::
  "Services \<Rightarrow> OpenAIEmbeddings \<Rightarrow> string list \<Rightarrow> call list \<times> vector list option" where
  "compute_vectors svc e texts =
     (if supportsBatch svc e \<and> \<not> disable_batch e then
        ([ComputeBatch texts],
         case computeBatch svc e texts of
           None \<Rightarrow> None
         | Some vs \<Rightarrow> if length vs = length texts then Some vs else None)
      else compute_each svc e texts)"

subsection \<open>The three actions\<close>

text \<open>
  Modelled from the spec: sections of a document, with ordinals in scan order
  and the category tag of the run (section 3).
\<close>

definition make_sections :: "string \<Rightarrow> string option \<Rightarrow> string list \<Rightarrow> Section list" where
  "make_sections ident cat texts =
     map (\<lambda>(i, t). \<lparr> owner = ident, ordinal = i, section_text = t,
                     section_category = cat, section_embedding = None \<rparr>)
         (enumerate 0 texts)"

text \<open>Modelled from the spec: the persisted form of a section (section 3).\<close>

definition entry_of :: "Section \<Rightarrow> SearchIndexEntry" where
  "entry_of s =
     \<lparr> entry_id = (owner s, ordinal s), entry_content = section_text s,
       entry_embedding = section_embedding s, entry_category = section_category s,
       sourceref = owner s \<rparr>"

text \<open>
  Modelled from the spec: the first steps of Add for one document
  (section 4.1): parse, split, and, if an embedding provider is present,
  compute vectors.  A parse or provider failure is the document's error
  (section 7).
\<close>

definition prepare_document ::
  "Services \<Rightarrow> FileStrategy \<Rightarrow> SourceDocument \<Rightarrow> call list \<times> (doc_error + Section list)" where
  "prepare_document svc fs d =
     (case parser_parse svc (pdf_parser fs) (content d) of
        None \<Rightarrow> ([Parse (identity d)], Inl (ParseError (identity d)))
      | Some pages \<Rightarrow>
          (let texts = splitter_split svc (text_splitter fs) pages;
               sections = make_sections (identity d) (fs_category fs) texts
           in case embeddings fs of
                None \<Rightarrow> ([Parse (identity d)], Inr sections)
              | Some e \<Rightarrow>
                  (case compute_vectors svc e texts of
                     (cs, None) \<Rightarrow> (Parse (identity d) # cs, Inl (EmbeddingError (identity d)))
                   | (cs, Some vs) \<Rightarrow>
                       (Parse (identity d) # cs,
                        Inr (map2 (\<lambda>s v. s\<lparr>section_embedding := Some v\<rparr>) sections vs)))))"

text \<open>
  Modelled from the spec: the page renderings of a document (section 3,
  optional): none when the document has none.
\<close>

definition rendered_pages :: "SourceDocument \<Rightarrow> bytes list" where
  "rendered_pages d = (case renderings d of None \<Rightarrow> [] | Some ps \<Rightarrow> ps)"

text \<open>
  Modelled from the spec: Add for one document (section 4.1): after the
  steps above, upload the original bytes, upload the page renderings if
  access-control mode is on, upsert one entry per section.  A failed document
  changes nothing and is reported (section 7).
\<close>

definition add_document ::
  "Services \<Rightarrow> FileStrategy \<Rightarrow> SourceDocument \<Rightarrow> World \<Rightarrow> World \<times> call list \<times> doc_error list" where
  "add_document svc fs d w =
     (case prepare_document svc fs d of
        (cs, Inl err) \<Rightarrow> (w, cs, [err])
      | (cs, Inr sections) \<Rightarrow>
          (let es = map entry_of sections;
               pages = rendered_pages d;
               w1 = store_upload d w;
               w2 = (if use_acls fs then store_uploadPageRenderings d pages w1 else w1);
               w3 = index_upsert es w2
           in (w3,
               cs @ [Upload (identity d)]
                  @ (if use_acls fs then [UploadPageRenderings (identity d) pages] else [])
                  @ [Upsert es],
               [])))"

text \<open>
  Modelled from the spec: Add over the documents of the Source Lister, one
  after the other; a failure does not stop the run (section 7).
\<close>

fun add_documents ::
  "Services \<Rightarrow> FileStrategy \<Rightarrow> SourceDocument list \<Rightarrow> World
     \<Rightarrow> World \<times> call list \<times> doc_error list" where
  "add_documents svc fs [] w = (w, [], [])"
| "add_documents svc fs (d # ds) w =
     (case add_document svc fs d w of
        (w1, cs1, errs1) \<Rightarrow>
          (case add_documents svc fs ds w1 of
             (w2, cs2, errs2) \<Rightarrow> (w2, cs1 @ cs2, errs1 @ errs2)))"

text \<open>
  Modelled from the spec: Remove (section 4.1): for each path given, delete
  its artifacts and every entry whose source reference is that path.
\<close>

fun remove_paths :: "string list \<Rightarrow> World \<Rightarrow> World \<times> call list" where
  "remove_paths [] w = (w, [])"
| "remove_paths (path # paths) w =
     (case remove_paths paths (index_deleteBySource path (store_deleteForSource path w)) of
        (w', cs) \<Rightarrow> (w', DeleteForSource path # DeleteBySource path # cs))"

text \<open>
  Modelled from the spec: \<open>run\<close> of section 4.1, dispatching on the action.
  The paths of Remove are the identities the Source Lister yields for the
  pattern; RemoveAll does not consult the lister.
\<close>

definition FileStrategy_run ::
  "Services \<Rightarrow> FileStrategy \<Rightarrow> SearchInfo \<Rightarrow> World \<Rightarrow> World \<times> call list \<times> doc_error list" where
  "FileStrategy_run svc fs search_info w =
     (case document_action fs of
        Add \<Rightarrow> add_documents svc fs (lister_list svc (list_file_strategy fs)) w
      | Remove \<Rightarrow>
          (case remove_paths (map identity (lister_list svc (list_file_strategy fs))) w of
             (w', cs) \<Rightarrow> (w', cs, []))
      | RemoveAll \<Rightarrow>
          (index_deleteAll (store_deleteAll w), [DeleteAllArtifacts, DeleteAllEntries], []))"

subsection \<open>Reading a run\<close>


text \<open>Calls of the Embedding Provider, uploads of page renderings, entries upserted.\<close>

fun is_compute :: "call \<Rightarrow> bool" where
  "is_compute (ComputeOne t) = True"
| "is_compute (ComputeBatch ts) = True"
| "is_compute c = False"


fun upserted :: "call list \<Rightarrow> SearchIndexEntry list" where
  "upserted [] = []"
| "upserted (Upsert es # cs) = es @ upserted cs"
| "upserted (c # cs) = upserted cs"

text \<open>The world without artifacts and entries, and the union of two worlds
  in which the second takes precedence.\<close>

definition empty_world :: World where
  "empty_world = \<lparr> artifacts = Map.empty, page_artifacts = Map.empty, entries = Map.empty \<rparr>"

definition overlay :: "World \<Rightarrow> World \<Rightarrow> World" where
  "overlay w d =
     \<lparr> artifacts = artifacts w ++ artifacts d,
       page_artifacts = page_artifacts w ++ page_artifacts d,
       entries = entries w ++ entries d \<rparr>"

section \<open>Example inputs\<close>

text \<open>
  The defaults of the argument parser, with a file pattern, a search service
  and keys filled in.
\<close>

definition example_args :: Args where
  "example_args =
    \<lparr> files = Some ''data/*'', useacls = False,
      storageaccount = ''dtfsdocumentchatstorage'', category = None,
      container = ''devcontent'', storagekey = None, tenantid = None,
      searchservice = Some ''mysearch'', index = Some ''myindex'',
      searchkey = Some ''key'', searchanalyzername = ''en.microsoft'',
      openaihost = ''azure'', openaiservice = ''DTFS-DocumentChat-OpenAI-Sweden'',
      openaideployment = ''ada2'', openaimodelname = ''text-embedding-ada-002'',
      novectors = False, disablebatchvectors = False,
      remove = False, removeall = False,
      formrecognizerservice = Some ''dtfs-document-intelligence'',
      formrecognizerkey = Some ''key'', verbose = False \<rparr>"

text \<open>A strategy on a counter: \<open>setup\<close> adds one, \<open>run\<close> doubles.\<close>

definition example_strategy :: "nat Strategy" where
  "example_strategy =
    \<lparr> strategy_setup = (\<lambda>si w. (w + 1, None)),
      strategy_run = (\<lambda>si w. (2 * w, None)) \<rparr>"

text \<open>
  Two documents, the first with page renderings; collaborators that parse the
  bytes as one page of text, split into one section per page and embed a text
  as its length; a world that holds another document already.
\<close>

definition example_docs :: "SourceDocument list" where
  "example_docs =
    [\<lparr> identity = ''a.pdf'', content = ''alpha'', renderings = Some [''a1'', ''a2''] \<rparr>,
     \<lparr> identity = ''b.pdf'', content = ''beta'', renderings = None \<rparr>]"

definition example_services :: Services where
  "example_services =
    \<lparr> lister_list = (\<lambda>l. example_docs),
      parser_parse = (\<lambda>p b. if b = [] then None
                             else Some [\<lparr> page_ordinal = 1, page_text = b, layout = None \<rparr>]),
      splitter_split = (\<lambda>s pages. map page_text pages),
      supportsBatch = (\<lambda>e. True),
      computeOne = (\<lambda>e t. Some [real (length t)]),
      computeBatch = (\<lambda>e ts. Some (map (\<lambda>t. [real (length t)]) ts)) \<rparr>"

definition old_entry :: SearchIndexEntry where
  "old_entry =
    \<lparr> entry_id = (''old.doc'', 0), entry_content = ''old'', entry_embedding = None,
      entry_category = None, sourceref = ''old.doc'' \<rparr>"

definition keep_entry :: SearchIndexEntry where
  "keep_entry =
    \<lparr> entry_id = (''keep.doc'', 0), entry_content = ''keep'', entry_embedding = None,
      entry_category = None, sourceref = ''keep.doc'' \<rparr>"

definition example_world :: World where
  "example_world =
    \<lparr> artifacts = [''old.doc'' \<mapsto> ''old bytes'', ''keep.doc'' \<mapsto> ''keep bytes''],
      page_artifacts = Map.empty,
      entries = [(''old.doc'', 0) \<mapsto> old_entry, (''keep.doc'', 0) \<mapsto> keep_entry] \<rparr>"

text \<open>The same collaborators with a lister that yields the one document \<open>old.doc\<close>.\<close>

definition remove_services :: Services where
  "remove_services =
    example_services
      \<lparr> lister_list :=
          (\<lambda>l. [\<lparr> identity = ''old.doc'', content = ''old bytes'', renderings = None \<rparr>]) \<rparr>"

text \<open>The strategy that \<open>setup_file_strategy\<close> returns on the example arguments.\<close>

definition example_fs :: FileStrategy where
  "example_fs =
    \<lparr> list_file_strategy = LocalListFileStrategy (Some ''data/*'') False,
      blob_manager =
        BlobManager ''https://dtfsdocumentchatstorage.blob.core.windows.net''
          ''devcontent'' None False,
      pdf_parser =
        DocumentAnalysisPdfParser
          ''https://dtfs-document-intelligence.cognitiveservices.azure.com/''
          (AzureKeyCredential (Some ''key'')) False,
      text_splitter = TextSplitter,
      document_action = Add,
      embeddings =
        Some (AzureOpenAIEmbeddingService ''DTFS-DocumentChat-OpenAI-Sweden'' ''ada2''
                ''text-embedding-ada-002'' (AzureKeyCredential (Some ''secret'')) False False),
      search_analyzer_name = ''en.microsoft'',
      use_acls = False,
      fs_category = None \<rparr>"

definition example_getenv :: "string \<Rightarrow> string option" where
  "example_getenv name = (if name = ''OPENAI_API_KEY'' then Some ''secret'' else None)"

section \<open>Properties of the script\<close>

subsection \<open>\<open>setup_file_strategy\<close>: exit or return\<close>

lemma setup_file_strategy_exits:
  "formrecognizerservice args = None \<Longrightarrow>
   setup_file_strategy getenv args =
     ([Line ''Error: Azure Form Recognizer service is not provided. Please provide formrecognizerservice''],
      Inl (SystemExit 1))"
  by (simp add: setup_file_strategy_def)

lemma setup_file_strategy_returns:
  "formrecognizerservice args \<noteq> None \<Longrightarrow>
   \<exists>fs. snd (setup_file_strategy getenv args) = Inr fs"
  by (simp add: setup_file_strategy_def Let_def)

lemma returned_document_action:
  "snd (setup_file_strategy getenv args) = Inr fs \<Longrightarrow>
   document_action fs =
     (if removeall args then RemoveAll else if remove args then Remove else Add)"
  by (auto simp: setup_file_strategy_def Let_def split: if_splits)

lemma returned_embeddings:
  "snd (setup_file_strategy getenv args) = Inr fs \<Longrightarrow>
   embeddings fs =
     (if \<not> novectors args \<and> openaihost args \<noteq> ''openai'' then
        Some (AzureOpenAIEmbeddingService
               (openaiservice args) (openaideployment args) (openaimodelname args)
               (AzureKeyCredential (getenv ''OPENAI_API_KEY''))
               (disablebatchvectors args) (verbose args))
      else None)"
  by (auto simp: setup_file_strategy_def Let_def split: if_splits)


subsection \<open>Traces of \<open>main\<close>\<close>

text \<open>The trace of \<open>main\<close> has one of five shapes, by the flags and by what raised.\<close>

lemma main_trace_add:
  assumes "\<not> remove args" "\<not> removeall args"
  shows "fst (main strategy args w) \<in>
           {[Setup_begins (search_info_of args)],
            [Setup_begins (search_info_of args), Setup_returns, Run_begins (search_info_of args)],
            [Setup_begins (search_info_of args), Setup_returns, Run_begins (search_info_of args),
             Run_returns]}"
  using assms
  by (auto simp: main_def call_run_def search_info_of_def Let_def
           split: prod.splits option.splits)

lemma main_trace_remove:
  assumes "remove args \<or> removeall args"
  shows "fst (main strategy args w) \<in>
           {[Run_begins (search_info_of args)],
            [Run_begins (search_info_of args), Run_returns]}"
  using assms
  by (auto simp: main_def call_run_def search_info_of_def Let_def
           split: prod.splits option.splits)

text \<open>
  The world and the outcome of \<open>main\<close>: with neither flag set, \<open>setup\<close> is
  applied to the initial world and, if it returns, \<open>run\<close> to the world that
  \<open>setup\<close> left; with a flag set, \<open>run\<close> alone is applied to the initial
  world.
\<close>

lemma main_world_add:
  assumes "\<not> remove args" "\<not> removeall args"
  shows "snd (main strategy args w) =
           (case strategy_setup strategy (search_info_of args) w of
              (w1, Some e) \<Rightarrow> (w1, Some e)
            | (w1, None) \<Rightarrow> strategy_run strategy (search_info_of args) w1)"
  using assms
  by (auto simp: main_def call_run_def search_info_of_def Let_def
           split: prod.splits option.splits)

lemma main_world_remove:
  assumes "remove args \<or> removeall args"
  shows "snd (main strategy args w) = strategy_run strategy (search_info_of args) w"
  using assms
  by (auto simp: main_def call_run_def search_info_of_def Let_def
           split: prod.splits option.splits)

lemma main_setup_returns:
  "Setup_returns \<in> set (fst (main strategy args w)) \<longleftrightarrow>
     \<not> remove args \<and> \<not> removeall args \<and>
     snd (strategy_setup strategy (search_info_of args) w) = None"
  by (auto simp: main_def call_run_def search_info_of_def Let_def
           split: prod.splits option.splits)

lemma main_run_begins:
  "(\<exists>si. Run_begins si \<in> set (fst (main strategy args w))) \<longleftrightarrow>
     (\<not> remove args \<and> \<not> removeall args
        \<longrightarrow> snd (strategy_setup strategy (search_info_of args) w) = None)"
  by (auto simp: main_def call_run_def search_info_of_def Let_def
           split: prod.splits option.splits)

text \<open>
  C1.  \<open>main\<close> calls the strategy's \<open>setup\<close> exactly when neither the remove
  flag nor the removeall flag is set, and wherever \<open>run\<close> begins after a call
  of \<open>setup\<close>, that call has returned: the events before the start of \<open>run\<close>
  are the start and the return of \<open>setup\<close>, in this order.  The calls are
  real: with neither flag set the world and outcome of \<open>main\<close> are those of
  \<open>setup\<close> on the initial world followed, if \<open>setup\<close> returned, by \<open>run\<close> on
  the world \<open>setup\<close> left; with a flag set they are those of \<open>run\<close> alone on
  the initial world.  \<open>setup\<close> is logged as returned exactly when it was called
  and did not raise, and \<open>run\<close> begins unless \<open>setup\<close> was called and raised.
\<close>

theorem main_setup_iff_add:
  "((\<exists>si. Setup_begins si \<in> set (fst (main strategy args w)))
       \<longleftrightarrow> \<not> remove args \<and> \<not> removeall args) \<and>
   (\<forall>pre si post.
       \<not> remove args \<and> \<not> removeall args \<and>
       fst (main strategy args w) = pre @ Run_begins si # post
       \<longrightarrow> pre = [Setup_begins si, Setup_returns]) \<and>
   (\<not> remove args \<and> \<not> removeall args \<longrightarrow>
       snd (main strategy args w) =
         (case strategy_setup strategy (search_info_of args) w of
            (w1, Some e) \<Rightarrow> (w1, Some e)
          | (w1, None) \<Rightarrow> strategy_run strategy (search_info_of args) w1)) \<and>
   (remove args \<or> removeall args \<longrightarrow>
       snd (main strategy args w) = strategy_run strategy (search_info_of args) w) \<and>
   (Setup_returns \<in> set (fst (main strategy args w)) \<longleftrightarrow>
       \<not> remove args \<and> \<not> removeall args \<and>
       snd (strategy_setup strategy (search_info_of args) w) = None) \<and>
   ((\<exists>si. Run_begins si \<in> set (fst (main strategy args w))) \<longleftrightarrow>
       (\<not> remove args \<and> \<not> removeall args
          \<longrightarrow> snd (strategy_setup strategy (search_info_of args) w) = None))"
proof -
  have trace:
    "((\<exists>si. Setup_begins si \<in> set (fst (main strategy args w)))
         \<longleftrightarrow> \<not> remove args \<and> \<not> removeall args) \<and>
     (\<forall>pre si post.
         \<not> remove args \<and> \<not> removeall args \<and>
         fst (main strategy args w) = pre @ Run_begins si # post
         \<longrightarrow> pre = [Setup_begins si, Setup_returns])"
  proof (cases "\<not> remove args \<and> \<not> removeall args")
    case True
    with main_trace_add [of args strategy w] show ?thesis
      by (auto simp: append_eq_Cons_conv Cons_eq_append_conv)
  next
    case False
    with main_trace_remove [of args strategy w] show ?thesis
      by (auto simp: append_eq_Cons_conv Cons_eq_append_conv)
  qed
  have add: "\<not> remove args \<and> \<not> removeall args \<longrightarrow>
       snd (main strategy args w) =
         (case strategy_setup strategy (search_info_of args) w of
            (w1, Some e) \<Rightarrow> (w1, Some e)
          | (w1, None) \<Rightarrow> strategy_run strategy (search_info_of args) w1)"
    using main_world_add [of args strategy w] by blast
  have rem: "remove args \<or> removeall args \<longrightarrow>
       snd (main strategy args w) = strategy_run strategy (search_info_of args) w"
    using main_world_remove [of args strategy w] by blast
  from trace add rem main_setup_returns [of strategy args w] main_run_begins [of strategy args w]
  show ?thesis by (intro conjI) (erule conjunct1, erule conjunct2, assumption+)
qed

theorem main_setup_iff_add_witness:
  "fst (main example_strategy example_args 3) =
     [Setup_begins (search_info_of example_args), Setup_returns,
      Run_begins (search_info_of example_args), Run_returns] \<and>
   fst (main example_strategy (example_args\<lparr>remove := True\<rparr>) 3) =
     [Run_begins (search_info_of example_args), Run_returns] \<and>
   (\<exists>si. Setup_begins si \<in> set (fst (main example_strategy example_args 3))) \<and>
   \<not> (\<exists>si. Setup_begins si \<in> set (fst (main example_strategy (example_args\<lparr>remove := True\<rparr>) 3))) \<and>
   snd (main example_strategy example_args 3) = (8, None) \<and>
   snd (main example_strategy (example_args\<lparr>remove := True\<rparr>) 3) = (6, None)"
proof -
  have add: "\<not> remove example_args \<and> \<not> removeall example_args"
    by (simp add: example_args_def)
  have rem: "remove (example_args\<lparr>remove := True\<rparr>) \<or> removeall (example_args\<lparr>remove := True\<rparr>)"
    by simp
  have t1: "fst (main example_strategy example_args 3) =
     [Setup_begins (search_info_of example_args), Setup_returns,
      Run_begins (search_info_of example_args), Run_returns]"
    by (simp add: main_def call_run_def example_strategy_def example_args_def
                  search_info_of_def Let_def)
  have t2: "fst (main example_strategy (example_args\<lparr>remove := True\<rparr>) 3) =
     [Run_begins (search_info_of example_args), Run_returns]"
    by (simp add: main_def call_run_def example_strategy_def example_args_def
                  search_info_of_def Let_def)
  note A = main_setup_iff_add [of example_strategy example_args 3]
  note R = main_setup_iff_add [of example_strategy "example_args\<lparr>remove := True\<rparr>" 3]
  from A add
  have s1: "\<exists>si. Setup_begins si \<in> set (fst (main example_strategy example_args 3))"
    by blast
  from R rem
  have s2: "\<not> (\<exists>si. Setup_begins si
                \<in> set (fst (main example_strategy (example_args\<lparr>remove := True\<rparr>) 3)))"
    by blast
  from A add
  have "snd (main example_strategy example_args 3) =
         (case strategy_setup example_strategy (search_info_of example_args) 3 of
            (w1, Some e) \<Rightarrow> (w1, Some e)
          | (w1, None) \<Rightarrow> strategy_run example_strategy (search_info_of example_args) w1)"
    by blast
  then have w1: "snd (main example_strategy example_args 3) = (8, None)"
    by (simp add: example_strategy_def)
  from R rem
  have "snd (main example_strategy (example_args\<lparr>remove := True\<rparr>) 3) =
          strategy_run example_strategy (search_info_of (example_args\<lparr>remove := True\<rparr>)) 3"
    by blast
  then have w2: "snd (main example_strategy (example_args\<lparr>remove := True\<rparr>) 3) = (6, None)"
    by (simp add: example_strategy_def)
  from t1 t2 s1 s2 w1 w2 show ?thesis by (intro conjI)
qed

text \<open>
  C3.  When the Form Recognizer service name is missing, the script prints the
  error and ends with \<open>SystemExit(1)\<close>; no strategy method has been called and
  the outside world is as it was, whatever the methods of the strategy do.
\<close>

theorem missing_formrecognizer_aborts:
  "formrecognizerservice args = None \<Longrightarrow>
   setup_file_strategy getenv args =
     ([Line ''Error: Azure Form Recognizer service is not provided. Please provide formrecognizerservice''],
      Inl (SystemExit 1)) \<and>
   prepdocs methods getenv args w =
     ([Namespace args,
       Line ''Error: Azure Form Recognizer service is not provided. Please provide formrecognizerservice''],
      [], w, Some (SystemExit 1))"
  by (simp add: prepdocs_def setup_file_strategy_exits)

theorem missing_formrecognizer_aborts_witness:
  "formrecognizerservice (example_args\<lparr>formrecognizerservice := None\<rparr>) = None \<and>
   prepdocs (\<lambda>fs. example_strategy) example_getenv
       (example_args\<lparr>formrecognizerservice := None\<rparr>) 3 =
     ([Namespace (example_args\<lparr>formrecognizerservice := None\<rparr>),
       Line ''Error: Azure Form Recognizer service is not provided. Please provide formrecognizerservice''],
      [], 3, Some (SystemExit 1))"
  using missing_formrecognizer_aborts
          [of "example_args\<lparr>formrecognizerservice := None\<rparr>" example_getenv
              "\<lambda>fs. example_strategy" 3]
  by simp

text \<open>
  C9.  Of a strategy that \<open>setup_file_strategy\<close> returns: with both the remove
  and the removeall flag set its action is \<open>RemoveAll\<close>, and its action is
  \<open>Add\<close> exactly when neither flag is set.  The function returns a strategy
  whenever the Form Recognizer service name is given.
\<close>

theorem removeall_takes_precedence:
  "formrecognizerservice args \<noteq> None \<Longrightarrow>
   \<exists>fs. snd (setup_file_strategy getenv args) = Inr fs \<and>
        (remove args \<and> removeall args \<longrightarrow> document_action fs = RemoveAll) \<and>
        (document_action fs = Add \<longleftrightarrow> \<not> remove args \<and> \<not> removeall args)"
proof -
  assume "formrecognizerservice args \<noteq> None"
  then obtain fs where fs: "snd (setup_file_strategy getenv args) = Inr fs"
    using setup_file_strategy_returns by blast
  from returned_document_action [OF fs] have
    "(remove args \<and> removeall args \<longrightarrow> document_action fs = RemoveAll) \<and>
     (document_action fs = Add \<longleftrightarrow> \<not> remove args \<and> \<not> removeall args)"
    by simp
  with fs show ?thesis by blast
qed

theorem removeall_takes_precedence_witness:
  "formrecognizerservice (example_args\<lparr>remove := True, removeall := True\<rparr>) \<noteq> None \<and>
   (\<exists>fs. snd (setup_file_strategy example_getenv
                 (example_args\<lparr>remove := True, removeall := True\<rparr>)) = Inr fs \<and>
         document_action fs = RemoveAll)"
proof -
  have h: "formrecognizerservice (example_args\<lparr>remove := True, removeall := True\<rparr>) \<noteq> None"
    by (simp add: example_args_def)
  from removeall_takes_precedence [OF h, of example_getenv] h show ?thesis
    by auto
qed

text \<open>
  C10.  With \<open>openaihost\<close> equal to \<open>openai\<close> the returned strategy has no
  embedding provider, whether or not \<open>novectors\<close> is set; the function prints
  and returns exactly what it does on the same arguments with \<open>novectors\<close>
  set, so every run of the strategy is the run with embeddings disabled.
\<close>

theorem openai_host_leaves_embeddings_unset:
  "openaihost args = ''openai'' \<Longrightarrow> formrecognizerservice args \<noteq> None \<Longrightarrow>
   (\<exists>fs. snd (setup_file_strategy getenv args) = Inr fs \<and> embeddings fs = None) \<and>
   setup_file_strategy getenv args = setup_file_strategy getenv (args\<lparr>novectors := True\<rparr>)"
proof -
  assume host: "openaihost args = ''openai''" and fr: "formrecognizerservice args \<noteq> None"
  from fr obtain fs where fs: "snd (setup_file_strategy getenv args) = Inr fs"
    using setup_file_strategy_returns by blast
  from returned_embeddings [OF fs] host have "embeddings fs = None" by simp
  moreover from host have
    "setup_file_strategy getenv args = setup_file_strategy getenv (args\<lparr>novectors := True\<rparr>)"
    by (simp add: setup_file_strategy_def Let_def)
  ultimately show ?thesis using fs by blast
qed

theorem openai_host_leaves_embeddings_unset_witness:
  "openaihost (example_args\<lparr>openaihost := ''openai''\<rparr>) = ''openai'' \<and>
   formrecognizerservice (example_args\<lparr>openaihost := ''openai''\<rparr>) \<noteq> None \<and>
   \<not> novectors (example_args\<lparr>openaihost := ''openai''\<rparr>) \<and>
   (\<exists>fs. snd (setup_file_strategy example_getenv (example_args\<lparr>openaihost := ''openai''\<rparr>))
           = Inr fs \<and> embeddings fs = None)"
proof -
  have h: "openaihost (example_args\<lparr>openaihost := ''openai''\<rparr>) = ''openai''"
    by simp
  have g: "formrecognizerservice (example_args\<lparr>openaihost := ''openai''\<rparr>) \<noteq> None"
    by (simp add: example_args_def)
  have n: "\<not> novectors (example_args\<lparr>openaihost := ''openai''\<rparr>)"
    by (simp add: example_args_def)
  from openai_host_leaves_embeddings_unset [OF h g, of example_getenv] h g n show ?thesis
    by blast
qed

section \<open>Properties of a run\<close>

subsection \<open>Add twice\<close>

lemma overlay_empty_world: "overlay w empty_world = w"
  by (simp add: overlay_def empty_world_def)

lemma overlay_assoc: "overlay (overlay w a) b = overlay w (overlay a b)"
  by (simp add: overlay_def)

lemma map_add_twice: "(m ++ n) ++ n = m ++ n"
  by (rule ext) (simp add: map_add_def split: option.split)

lemma overlay_twice: "overlay (overlay w d) d = overlay w d"
  by (simp add: overlay_def map_add_twice)

lemma put_entry_map_add: "put_entry (m ++ n) e = m ++ put_entry n e"
  by (simp add: put_entry_def)

lemma foldl_put_entry_map_add:
  "foldl put_entry (m ++ n) es = m ++ foldl put_entry n es"
  by (induction es arbitrary: n) (simp_all add: put_entry_map_add)

lemma foldl_put_entry_onto:
  "foldl put_entry m es = m ++ foldl put_entry Map.empty es"
  using foldl_put_entry_map_add [of m Map.empty es] by simp

lemma add_document_overlay:
  "fst (add_document svc fs d w) = overlay w (fst (add_document svc fs d empty_world))"
proof (cases "prepare_document svc fs d")
  case (Pair cs r)
  show ?thesis
  proof (cases r)
    case (Inl err)
    with Pair show ?thesis by (simp add: add_document_def overlay_empty_world)
  next
    case (Inr sections)
    with Pair show ?thesis
      by (simp add: add_document_def Let_def overlay_def empty_world_def store_upload_def
            store_uploadPageRenderings_def index_upsert_def
            foldl_put_entry_onto [of "entries w"])
  qed
qed

lemma add_documents_step:
  "fst (add_documents svc fs (d # ds) w)
     = fst (add_documents svc fs ds (fst (add_document svc fs d w)))"
  by (simp split: prod.splits)

lemma add_documents_overlay:
  "fst (add_documents svc fs ds w) = overlay w (fst (add_documents svc fs ds empty_world))"
proof (induction ds arbitrary: w)
  case Nil
  show ?case by (simp add: overlay_empty_world)
next
  case (Cons d ds)
  let ?D = "fst (add_document svc fs d empty_world)"
  let ?X = "fst (add_documents svc fs ds empty_world)"
  have "fst (add_documents svc fs (d # ds) w)
          = overlay (fst (add_document svc fs d w)) ?X"
    using Cons.IH [of "fst (add_document svc fs d w)"] by (simp only: add_documents_step)
  also have "\<dots> = overlay (overlay w ?D) ?X"
    using add_document_overlay [of svc fs d w] by simp
  also have "\<dots> = overlay w (overlay ?D ?X)"
    by (rule overlay_assoc)
  also have "overlay ?D ?X = fst (add_documents svc fs (d # ds) empty_world)"
    using Cons.IH [of ?D] by (simp only: add_documents_step)
  finally show ?case .
qed

text \<open>
  C4.  A second Add run over the same documents leaves the world of the
  first run as it is: the same entries under the same ids with the same
  contents in the index, and the same artifacts in the store.
\<close>

theorem add_twice_is_add_once:
  "document_action fs = Add \<Longrightarrow>
   fst (FileStrategy_run svc fs si (fst (FileStrategy_run svc fs si w)))
     = fst (FileStrategy_run svc fs si w)"
proof -
  assume a: "document_action fs = Add"
  let ?ds = "lister_list svc (list_file_strategy fs)"
  let ?X = "fst (add_documents svc fs ?ds empty_world)"
  have once: "fst (FileStrategy_run svc fs si v) = overlay v ?X" for v
    using a add_documents_overlay [of svc fs ?ds v] by (simp add: FileStrategy_run_def)
  show ?thesis by (simp add: once overlay_twice)
qed


subsection \<open>Remove\<close>

lemma remove_paths_step:
  "fst (remove_paths (p # ps) w)
     = fst (remove_paths ps (index_deleteBySource p (store_deleteForSource p w)))"
  by (simp split: prod.splits)

lemma remove_paths_entries:
  "entries (fst (remove_paths ps w)) k =
     (case entries w k of
        None \<Rightarrow> None
      | Some e \<Rightarrow> if sourceref e \<in> set ps then None else Some e)"
proof (induction ps arbitrary: w)
  case Nil
  show ?case by (simp split: option.splits)
next
  case (Cons p ps)
  show ?case
    unfolding remove_paths_step Cons.IH
    by (auto simp: index_deleteBySource_def store_deleteForSource_def split: option.splits)
qed

lemma remove_paths_artifacts:
  "artifacts (fst (remove_paths ps w)) p = (if p \<in> set ps then None else artifacts w p)"
proof (induction ps arbitrary: w)
  case Nil
  show ?case by simp
next
  case (Cons q ps)
  show ?case
    unfolding remove_paths_step Cons.IH
    by (simp add: index_deleteBySource_def store_deleteForSource_def)
qed

lemma remove_paths_page_artifacts:
  "page_artifacts (fst (remove_paths ps w)) p
     = (if p \<in> set ps then None else page_artifacts w p)"
proof (induction ps arbitrary: w)
  case Nil
  show ?case by simp
next
  case (Cons q ps)
  show ?case
    unfolding remove_paths_step Cons.IH
    by (simp add: index_deleteBySource_def store_deleteForSource_def)
qed

lemma run_remove:
  "document_action fs = Remove \<Longrightarrow>
   fst (FileStrategy_run svc fs si w)
     = fst (remove_paths (map identity (lister_list svc (list_file_strategy fs))) w)"
  by (simp add: FileStrategy_run_def split: prod.splits)

text \<open>
  C5.  A Remove run leaves every entry whose source reference is not among
  the paths given as it was, and every artifact of another identity too; an
  entry that differs afterwards was deleted and had one of the paths as
  source reference.  With the single path of a document \<open>D1\<close>, the entries
  and artifacts of any other document \<open>D2\<close> are unchanged.
\<close>

theorem remove_touches_only_given_paths:
  assumes "document_action fs = Remove"
      and "paths = map identity (lister_list svc (list_file_strategy fs))"
      and "w' = fst (FileStrategy_run svc fs si w)"
  shows "(\<forall>k e. entries w k = Some e \<and> sourceref e \<notin> set paths \<longrightarrow> entries w' k = Some e) \<and>
         (\<forall>k. entries w' k \<noteq> entries w k \<longrightarrow>
               entries w' k = None \<and> (\<exists>e. entries w k = Some e \<and> sourceref e \<in> set paths)) \<and>
         (\<forall>p. p \<notin> set paths \<longrightarrow>
               artifacts w' p = artifacts w p \<and> page_artifacts w' p = page_artifacts w p) \<and>
         (\<forall>p. artifacts w' p \<noteq> artifacts w p \<or> page_artifacts w' p \<noteq> page_artifacts w p
               \<longrightarrow> p \<in> set paths)"
proof -
  have w': "w' = fst (remove_paths paths w)"
    using assms run_remove [of fs svc si w] by simp
  have e: "entries w' k =
             (case entries w k of
                None \<Rightarrow> None
              | Some e \<Rightarrow> if sourceref e \<in> set paths then None else Some e)" for k
    unfolding w' by (rule remove_paths_entries)
  have a: "artifacts w' p = (if p \<in> set paths then None else artifacts w p)" for p
    unfolding w' by (rule remove_paths_artifacts)
  have b: "page_artifacts w' p = (if p \<in> set paths then None else page_artifacts w p)" for p
    unfolding w' by (rule remove_paths_page_artifacts)
  have 1: "\<forall>k e. entries w k = Some e \<and> sourceref e \<notin> set paths \<longrightarrow> entries w' k = Some e"
    by (simp add: e)
  have 2: "\<forall>k. entries w' k \<noteq> entries w k \<longrightarrow>
               entries w' k = None \<and> (\<exists>e. entries w k = Some e \<and> sourceref e \<in> set paths)"
    by (auto simp: e split: option.splits if_splits)
  have 3: "\<forall>p. p \<notin> set paths \<longrightarrow>
               artifacts w' p = artifacts w p \<and> page_artifacts w' p = page_artifacts w p"
    by (simp add: a b)
  have 4: "\<forall>p. artifacts w' p \<noteq> artifacts w p \<or> page_artifacts w' p \<noteq> page_artifacts w p
               \<longrightarrow> p \<in> set paths"
    by (auto simp: a b split: if_splits)
  from 1 2 3 4 show ?thesis by blast
qed

subsection \<open>RemoveAll\<close>

text \<open>
  C6.  A RemoveAll run leaves the artifact store and the index empty, from
  any prior world, and its result does not depend on the path pattern held by
  the lister.
\<close>

theorem removeall_empties_store_and_index:
  "document_action fs = RemoveAll \<Longrightarrow>
   fst (FileStrategy_run svc fs si w) = empty_world \<and>
   FileStrategy_run svc (fs\<lparr>list_file_strategy := l\<rparr>) si w = FileStrategy_run svc fs si w"
  by (simp add: FileStrategy_run_def index_deleteAll_def store_deleteAll_def empty_world_def)


subsection \<open>Calls of a run\<close>

lemma upserted_append: "upserted (cs @ ds) = upserted cs @ upserted ds"
  by (induction cs rule: upserted.induct) simp_all

lemma compute_each_calls:
  "c \<in> set (fst (compute_each svc e ts)) \<Longrightarrow> \<exists>t. c = ComputeOne t"
  by (induction ts arbitrary: c) (auto split: option.splits prod.splits)

lemma compute_vectors_calls:
  "c \<in> set (fst (compute_vectors svc e ts)) \<Longrightarrow> (\<exists>t. c = ComputeOne t) \<or> (\<exists>us. c = ComputeBatch us)"
  using compute_each_calls [of c svc e ts]
  by (auto simp: compute_vectors_def split: if_splits)

lemma prepare_document_calls:
  assumes "c \<in> set (fst (prepare_document svc fs d))"
  shows "(\<exists>i. c = Parse i) \<or> (\<exists>t. c = ComputeOne t) \<or> (\<exists>us. c = ComputeBatch us)"
proof (cases "parser_parse svc (pdf_parser fs) (content d)")
  case None
  with assms show ?thesis by (simp add: prepare_document_def)
next
  case (Some pages)
  show ?thesis
  proof (cases "embeddings fs")
    case None
    with Some assms show ?thesis by (simp add: prepare_document_def Let_def)
  next
    case (Some e)
    let ?ts = "splitter_split svc (text_splitter fs) pages"
    from assms \<open>parser_parse svc (pdf_parser fs) (content d) = Some pages\<close> Some
    have "c = Parse (identity d) \<or> c \<in> set (fst (compute_vectors svc e ?ts))"
      by (auto simp: prepare_document_def Let_def split: prod.splits option.splits)
    with compute_vectors_calls [of c svc e ?ts] show ?thesis by blast
  qed
qed

lemma prepare_document_upserted: "upserted (fst (prepare_document svc fs d)) = []"
proof -
  have "(\<forall>c \<in> set cs. (\<exists>i. c = Parse i) \<or> (\<exists>t. c = ComputeOne t) \<or> (\<exists>us. c = ComputeBatch us))
          \<Longrightarrow> upserted cs = []" for cs
    by (induction cs rule: upserted.induct) auto
  then show ?thesis using prepare_document_calls by blast
qed


lemma make_sections_no_embedding:
  "s \<in> set (make_sections ident cat texts) \<Longrightarrow> section_embedding s = None"
  by (auto simp: make_sections_def)

lemma prepare_document_without_provider:
  assumes "embeddings fs = None"
  shows "fst (prepare_document svc fs d) = [Parse (identity d)]"
    and "snd (prepare_document svc fs d) = Inr sections \<Longrightarrow> s \<in> set sections
           \<Longrightarrow> section_embedding s = None"
  using assms make_sections_no_embedding
  by (auto simp: prepare_document_def Let_def split: option.splits)

text \<open>The calls and the new world of Add for one document, case by case.\<close>

lemma add_document_failed:
  "snd (prepare_document svc fs d) = Inl err \<Longrightarrow>
   add_document svc fs d w = (w, fst (prepare_document svc fs d), [err])"
  by (cases "prepare_document svc fs d") (simp add: add_document_def)

lemma add_document_stored:
  "snd (prepare_document svc fs d) = Inr sections \<Longrightarrow>
   add_document svc fs d w =
     (index_upsert (map entry_of sections)
        (if use_acls fs then store_uploadPageRenderings d (rendered_pages d) (store_upload d w)
         else store_upload d w),
      fst (prepare_document svc fs d) @ [Upload (identity d)]
        @ (if use_acls fs then [UploadPageRenderings (identity d) (rendered_pages d)] else [])
        @ [Upsert (map entry_of sections)],
      [])"
  by (cases "prepare_document svc fs d") (simp add: add_document_def Let_def)

lemma add_document_calls_without_provider:
  assumes "embeddings fs = None"
  shows "(\<forall>c \<in> set (fst (snd (add_document svc fs d w))). \<not> is_compute c) \<and>
         (\<forall>e \<in> set (upserted (fst (snd (add_document svc fs d w)))). entry_embedding e = None)"
proof (cases "snd (prepare_document svc fs d)")
  case (Inl err)
  with prepare_document_without_provider(1) [OF assms, of svc d] show ?thesis
    by (simp add: add_document_failed)
next
  case (Inr sections)
  have "\<forall>s \<in> set sections. section_embedding s = None"
    using prepare_document_without_provider(2) [OF assms Inr] by blast
  then have "\<forall>e \<in> set (map entry_of sections). entry_embedding e = None"
    by (simp add: entry_of_def)
  with Inr prepare_document_without_provider(1) [OF assms, of svc d] show ?thesis
    by (simp add: add_document_stored upserted_append)
qed

lemma add_documents_calls:
  "fst (snd (add_documents svc fs (d # ds) w))
     = fst (snd (add_document svc fs d w))
       @ fst (snd (add_documents svc fs ds (fst (add_document svc fs d w))))"
  by (simp split: prod.splits)

lemma add_documents_calls_without_provider:
  assumes "embeddings fs = None"
  shows "(\<forall>c \<in> set (fst (snd (add_documents svc fs ds w))). \<not> is_compute c) \<and>
         (\<forall>e \<in> set (upserted (fst (snd (add_documents svc fs ds w)))). entry_embedding e = None)"
proof (induction ds arbitrary: w)
  case Nil
  show ?case by simp
next
  case (Cons d ds)
  from add_document_calls_without_provider [OF assms, of svc d w]
       Cons.IH [of "fst (add_document svc fs d w)"]
  show ?case
    unfolding add_documents_calls upserted_append by auto
qed

lemma remove_paths_calls_step:
  "snd (remove_paths (p # ps) w)
     = DeleteForSource p # DeleteBySource p
         # snd (remove_paths ps (index_deleteBySource p (store_deleteForSource p w)))"
  by (simp split: prod.splits)

lemma remove_paths_calls:
  "c \<in> set (snd (remove_paths ps w)) \<Longrightarrow> (\<exists>p. c = DeleteForSource p) \<or> (\<exists>p. c = DeleteBySource p)"
proof (induction ps arbitrary: w)
  case Nil
  then show ?case by simp
next
  case (Cons p ps)
  then show ?case unfolding remove_paths_calls_step by auto
qed

lemma remove_paths_upserted: "upserted (snd (remove_paths ps w)) = []"
proof (induction ps arbitrary: w)
  case Nil
  show ?case by simp
next
  case (Cons p ps)
  then show ?case unfolding remove_paths_calls_step by simp
qed

lemma run_remove_calls:
  "document_action fs = Remove \<Longrightarrow>
   fst (snd (FileStrategy_run svc fs si w))
     = snd (remove_paths (map identity (lister_list svc (list_file_strategy fs))) w)"
  by (simp add: FileStrategy_run_def split: prod.splits)

lemma run_calls_without_provider:
  assumes "embeddings fs = None"
  shows "(\<forall>c \<in> set (fst (snd (FileStrategy_run svc fs si w))). \<not> is_compute c) \<and>
         (\<forall>e \<in> set (upserted (fst (snd (FileStrategy_run svc fs si w)))). entry_embedding e = None)"
proof (cases "document_action fs")
  case Add
  with add_documents_calls_without_provider [OF assms] show ?thesis
    by (simp add: FileStrategy_run_def)
next
  case Remove
  have "\<not> is_compute c" if "c \<in> set (snd (remove_paths ps w))" for c ps
    using remove_paths_calls [OF that] by auto
  then show ?thesis
    by (simp add: run_remove_calls [OF Remove] remove_paths_upserted)
next
  case RemoveAll
  then show ?thesis by (simp add: FileStrategy_run_def)
qed

text \<open>
  C2.  With the \<open>novectors\<close> flag set, the strategy that
  \<open>setup_file_strategy\<close> returns has no embedding provider; no run of it
  calls the Embedding Provider, and every entry it upserts is without
  embedding.
\<close>

theorem novectors_gates_embeddings:
  "novectors args \<Longrightarrow> formrecognizerservice args \<noteq> None \<Longrightarrow>
   \<exists>fs. snd (setup_file_strategy getenv args) = Inr fs \<and> embeddings fs = None \<and>
        (\<forall>svc si w.
           (\<forall>c \<in> set (fst (snd (FileStrategy_run svc fs si w))). \<not> is_compute c) \<and>
           (\<forall>e \<in> set (upserted (fst (snd (FileStrategy_run svc fs si w)))).
               entry_embedding e = None))"
proof -
  assume nv: "novectors args" and fr: "formrecognizerservice args \<noteq> None"
  from fr obtain fs where fs: "snd (setup_file_strategy getenv args) = Inr fs"
    using setup_file_strategy_returns by blast
  from returned_embeddings [OF fs] nv have none: "embeddings fs = None" by simp
  from run_calls_without_provider [OF none] fs none show ?thesis by blast
qed


subsection \<open>Uploads\<close>






section \<open>Runs on the example inputs\<close>

lemma example_fs_returned:
  "snd (setup_file_strategy example_getenv example_args) = Inr example_fs"
  by (simp add: setup_file_strategy_def example_args_def example_getenv_def example_fs_def
        format_opt_def Let_def)

lemma example_add_run_entry:
  "entries (fst (FileStrategy_run example_services example_fs (search_info_of example_args)
                   example_world)) (''a.pdf'', 0)
     = Some \<lparr> entry_id = (''a.pdf'', 0), entry_content = ''alpha'',
              entry_embedding = Some [5], entry_category = None, sourceref = ''a.pdf'' \<rparr>"
  by (simp add: FileStrategy_run_def example_fs_def example_services_def example_docs_def
        add_document_def prepare_document_def compute_vectors_def make_sections_def
        entry_of_def index_upsert_def put_entry_def store_upload_def Let_def)

theorem add_twice_is_add_once_witness:
  "document_action example_fs = Add \<and>
   fst (FileStrategy_run example_services example_fs (search_info_of example_args)
          (fst (FileStrategy_run example_services example_fs (search_info_of example_args)
                  example_world)))
     = fst (FileStrategy_run example_services example_fs (search_info_of example_args)
              example_world) \<and>
   entries (fst (FileStrategy_run example_services example_fs (search_info_of example_args)
                   example_world)) (''a.pdf'', 0)
     = Some \<lparr> entry_id = (''a.pdf'', 0), entry_content = ''alpha'',
              entry_embedding = Some [5], entry_category = None, sourceref = ''a.pdf'' \<rparr>"
proof -
  have h: "document_action example_fs = Add"
    by (simp add: example_fs_def)
  from add_twice_is_add_once [OF h, of example_services "search_info_of example_args"
                                example_world]
       h example_add_run_entry
  show ?thesis by simp
qed

theorem remove_touches_only_given_paths_witness:
  "document_action (example_fs\<lparr>document_action := Remove\<rparr>) = Remove \<and>
   map identity (lister_list remove_services
                   (list_file_strategy (example_fs\<lparr>document_action := Remove\<rparr>)))
     = [''old.doc''] \<and>
   entries example_world (''keep.doc'', 0) = Some keep_entry \<and>
   sourceref keep_entry \<noteq> ''old.doc'' \<and>
   entries (fst (FileStrategy_run remove_services (example_fs\<lparr>document_action := Remove\<rparr>)
                   (search_info_of example_args) example_world)) (''keep.doc'', 0)
     = Some keep_entry \<and>
   artifacts (fst (FileStrategy_run remove_services (example_fs\<lparr>document_action := Remove\<rparr>)
                     (search_info_of example_args) example_world)) ''keep.doc''
     = Some ''keep bytes''"
proof -
  let ?fs = "example_fs\<lparr>document_action := Remove\<rparr>"
  let ?w' = "fst (FileStrategy_run remove_services ?fs (search_info_of example_args)
                    example_world)"
  have h: "document_action ?fs = Remove" by simp
  have p: "map identity (lister_list remove_services (list_file_strategy ?fs)) = [''old.doc'']"
    by (simp add: remove_services_def)
  have e: "entries example_world (''keep.doc'', 0) = Some keep_entry"
    by (simp add: example_world_def)
  have s: "sourceref keep_entry \<noteq> ''old.doc''"
    by (simp add: keep_entry_def)
  have a: "artifacts example_world ''keep.doc'' = Some ''keep bytes''"
    by (simp add: example_world_def)
  have s': "sourceref keep_entry \<notin> set [''old.doc'']"
    using s by simp
  have k: "''keep.doc'' \<notin> set [''old.doc'']"
    by simp
  note T = remove_touches_only_given_paths
             [where si = "search_info_of example_args" and w = example_world,
              OF h p [symmetric] refl]
  note T1 = T [THEN conjunct1, rule_format, of "(''keep.doc'', 0)" keep_entry]
  note T3 = T [THEN conjunct2, THEN conjunct2, THEN conjunct1, rule_format, of "''keep.doc''"]
  from T1 e s' have 1: "entries ?w' (''keep.doc'', 0) = Some keep_entry"
    by blast
  from T3 [OF k] have "artifacts ?w' ''keep.doc'' = artifacts example_world ''keep.doc''"
    by (rule conjunct1)
  also note a
  finally have 2: "artifacts ?w' ''keep.doc'' = Some ''keep bytes''" .
  from h p e s 1 2 show ?thesis by (intro conjI)
qed

theorem removeall_empties_store_and_index_witness:
  "document_action (example_fs\<lparr>document_action := RemoveAll\<rparr>) = RemoveAll \<and>
   fst (FileStrategy_run example_services (example_fs\<lparr>document_action := RemoveAll\<rparr>)
          (search_info_of example_args) example_world) = empty_world \<and>
   artifacts example_world ''old.doc'' = Some ''old bytes''"
proof -
  have h: "document_action (example_fs\<lparr>document_action := RemoveAll\<rparr>) = RemoveAll" by simp
  have a: "artifacts example_world ''old.doc'' = Some ''old bytes''"
    by (simp add: example_world_def)
  from removeall_empties_store_and_index [OF h, of example_services
         "search_info_of example_args" example_world] h a
  show ?thesis by blast
qed

theorem novectors_gates_embeddings_witness:
  "novectors (example_args\<lparr>novectors := True\<rparr>) \<and>
   formrecognizerservice (example_args\<lparr>novectors := True\<rparr>) \<noteq> None \<and>
   (\<exists>fs. snd (setup_file_strategy example_getenv (example_args\<lparr>novectors := True\<rparr>)) = Inr fs \<and>
         embeddings fs = None \<and>
         ComputeBatch [''alpha'']
           \<notin> set (fst (snd (FileStrategy_run example_services fs (search_info_of example_args)
                               example_world))))"
proof -
  have n: "novectors (example_args\<lparr>novectors := True\<rparr>)" by simp
  have g: "formrecognizerservice (example_args\<lparr>novectors := True\<rparr>) \<noteq> None"
    by (simp add: example_args_def)
  from novectors_gates_embeddings [OF n g, of example_getenv]
  obtain fs where fs: "snd (setup_file_strategy example_getenv
                              (example_args\<lparr>novectors := True\<rparr>)) = Inr fs"
    and none: "embeddings fs = None"
    and calls: "\<forall>c \<in> set (fst (snd (FileStrategy_run example_services fs
                                        (search_info_of example_args) example_world))).
                  \<not> is_compute c"
    by blast
  from calls have "ComputeBatch [''alpha'']
           \<notin> set (fst (snd (FileStrategy_run example_services fs (search_info_of example_args)
                               example_world)))"
    by auto
  with n g fs none show ?thesis by blast
qed


end
